theory Spec2Isabelle
  imports Complex_Main
begin

section \<open>Cells: the floating-point values of a pandas table\<close>

text \<open>
  The pipeline of \<^verbatim>\<open>src/data_pipeline/update_date.py\<close> works on pandas tables of
  float64 cells. A cell is a finite number, one of the two infinities, or NaN, which is
  pandas' marker of a missing (undefined) value. Finite numbers are exact reals here:
  rounding and the sign of zero are not modelled. Division follows numpy: a non-zero
  number over zero is an infinity, zero over zero is NaN, and NaN is absorbing.
\<close>

datatype cell = NaN | Fin real | PInf | NInf

definition isna :: "cell \<Rightarrow> bool" where
  "isna c = (c = NaN)"

fun fdiv :: "cell \<Rightarrow> cell \<Rightarrow> cell" where
  "fdiv NaN b = NaN"
| "fdiv a NaN = NaN"
| "fdiv (Fin a) (Fin b) =
     (if b = 0 then (if a = 0 then NaN else if 0 < a then PInf else NInf)
      else Fin (a / b))"
| "fdiv (Fin a) PInf = Fin 0"
| "fdiv (Fin a) NInf = Fin 0"
| "fdiv PInf (Fin b) = (if 0 \<le> b then PInf else NInf)"
| "fdiv NInf (Fin b) = (if 0 \<le> b then NInf else PInf)"
| "fdiv PInf PInf = NaN"
| "fdiv PInf NInf = NaN"
| "fdiv NInf PInf = NaN"
| "fdiv NInf NInf = NaN"

text \<open>\<^verbatim>\<open>x - 1\<close> on a cell: the infinities and NaN absorb the subtraction.\<close>

fun fsub1 :: "cell \<Rightarrow> cell" where
  "fsub1 (Fin a) = Fin (a - 1)"
| "fsub1 c = c"

text \<open>The percent change of \<open>a\<close> against its predecessor \<open>b\<close>: \<^verbatim>\<open>a / b - 1\<close>.\<close>

definition pct :: "cell \<Rightarrow> cell \<Rightarrow> cell" where
  "pct a b = fsub1 (fdiv a b)"

section \<open>Columns\<close>

text \<open>
  \<^verbatim>\<open>Series.shift(k)\<close>: every value moves \<open>k\<close> rows down, the first \<open>k\<close> rows
  become NaN, the length is kept.
\<close>

definition shift :: "nat \<Rightarrow> cell list \<Rightarrow> cell list" where
  "shift k xs = take (length xs) (replicate k NaN @ xs)"

text \<open>
  \<^verbatim>\<open>Series.ffill()\<close>: a NaN is replaced by the last value seen above it that is not
  NaN; NaNs above the first value stay.
\<close>

fun ffill_from :: "cell \<Rightarrow> cell list \<Rightarrow> cell list" where
  "ffill_from lastv [] = []"
| "ffill_from lastv (x # xs) =
     (if isna x then lastv # ffill_from lastv xs else x # ffill_from x xs)"

definition ffill_col :: "cell list \<Rightarrow> cell list" where
  "ffill_col xs = ffill_from NaN xs"

text \<open>
  \<^verbatim>\<open>Series.pct_change(k)\<close> computes \<^verbatim>\<open>data / data.shift(k) - 1\<close>. Up to pandas 2
  the data is first forward-filled (the default \<^verbatim>\<open>fill_method='pad'\<close>); from pandas 3
  it is taken as it is. The flag \<open>pad\<close> selects between the two, and every result below
  is proved for both.
\<close>

definition pct_change_col :: "bool \<Rightarrow> nat \<Rightarrow> cell list \<Rightarrow> cell list" where
  "pct_change_col pad k xs =
     (let d = (if pad then ffill_col xs else xs)
      in map2 pct d (shift k d))"

section \<open>Tables\<close>

text \<open>
  A \<^verbatim>\<open>DataFrame\<close>: the index (dates, as day numbers), the name of the index
  (\<open>None\<close> when it has none), and the columns in order, each a name with one cell per
  index entry. A \<^verbatim>\<open>Series\<close> is one named column with its index.
\<close>

record frame =
  index :: "int list"
  index_name :: "string option"
  cols :: "(string \<times> cell list) list"

record series =
  s_index :: "int list"
  s_index_name :: "string option"
  s_name :: string
  s_values :: "cell list"

definition wf_frame :: "frame \<Rightarrow> bool" where
  "wf_frame f = list_all (\<lambda>c. length (snd c) = length (index f)) (cols f)"

definition columns :: "frame \<Rightarrow> string list" where
  "columns f = map fst (cols f)"

definition nrows :: "frame \<Rightarrow> nat" where
  "nrows f = length (index f)"

definition map_cols :: "(cell list \<Rightarrow> cell list) \<Rightarrow> frame \<Rightarrow> frame" where
  "map_cols g f = f\<lparr>cols := map (\<lambda>c. (fst c, g (snd c))) (cols f)\<rparr>"

definition pct_change :: "bool \<Rightarrow> nat \<Rightarrow> frame \<Rightarrow> frame" where
  "pct_change pad k f = map_cols (pct_change_col pad k) f"

definition ffill :: "frame \<Rightarrow> frame" where
  "ffill f = map_cols ffill_col f"

text \<open>Keeping the rows whose mask entry is true.\<close>

definition sel :: "bool list \<Rightarrow> 'a list \<Rightarrow> 'a list" where
  "sel keep xs = map snd (filter fst (zip keep xs))"

definition select_rows :: "bool list \<Rightarrow> frame \<Rightarrow> frame" where
  "select_rows keep f =
     f\<lparr>index := sel keep (index f),
       cols := map (\<lambda>c. (fst c, sel keep (snd c))) (cols f)\<rparr>"

text \<open>
  The row masks of \<^verbatim>\<open>dropna\<close>: row \<open>i\<close> is complete when no column is NaN there,
  and it is empty when every column is NaN there.
\<close>

definition row_complete :: "frame \<Rightarrow> nat \<Rightarrow> bool" where
  "row_complete f i = list_all (\<lambda>c. \<not> isna (snd c ! i)) (cols f)"

definition row_empty :: "frame \<Rightarrow> nat \<Rightarrow> bool" where
  "row_empty f i = list_all (\<lambda>c. isna (snd c ! i)) (cols f)"

text \<open>\<^verbatim>\<open>DataFrame.dropna()\<close>, that is \<^verbatim>\<open>how='any'\<close>: only complete rows stay.\<close>

definition dropna :: "frame \<Rightarrow> frame" where
  "dropna f = select_rows (map (row_complete f) [0..<nrows f]) f"

text \<open>\<^verbatim>\<open>DataFrame.dropna(how="all")\<close>: only the rows that are empty go.\<close>

definition dropna_all :: "frame \<Rightarrow> frame" where
  "dropna_all f = select_rows (map (\<lambda>i. \<not> row_empty f i) [0..<nrows f]) f"

section \<open>Returns\<close>

text \<open>
  \<^verbatim>\<open>
  def compute_returns(prices):
      returns = prices.pct_change().dropna()
      returns.index.name = "date"
      return returns
  \<close>
\<close>

definition compute_returns :: "bool \<Rightarrow> frame \<Rightarrow> frame" where
  "compute_returns pad prices =
     (let returns = dropna (pct_change pad 1 prices)
      in returns\<lparr>index_name := Some ''date''\<rparr>)"

section \<open>Errors\<close>

text \<open>
  The exceptions a run can end with: Python's own \<^verbatim>\<open>NameError\<close> for a global name
  that is not bound, pandas' \<^verbatim>\<open>ValueError\<close>, and a failure raised inside one of the
  two data providers (network, credential, unknown code).
\<close>

datatype error = NameError string | ValueError string | ProviderError string

section \<open>Prices\<close>

text \<open>
  \<^verbatim>\<open>Series.to_frame()\<close> and \<^verbatim>\<open>Series.rename(name)\<close>.
\<close>

definition to_frame :: "series \<Rightarrow> frame" where
  "to_frame s =
     \<lparr>index = s_index s, index_name = s_index_name s, cols = [(s_name s, s_values s)]\<rparr>"

definition rename :: "string \<Rightarrow> series \<Rightarrow> series" where
  "rename name s = s\<lparr>s_name := name\<rparr>"

text \<open>
  What \<^verbatim>\<open>yf.download(...)["Close"]\<close> hands back is either a flat series or a table
  with one column per ticker; the provider itself is outside the program and is a
  parameter: given the tickers and the start date it fails or answers.
\<close>

datatype close_data = CloseSeries series | CloseFrame frame

type_synonym price_provider = "string list \<Rightarrow> string \<Rightarrow> error + close_data"

definition get_universe :: "string list" where
  "get_universe =
     [''AAPL'', ''MSFT'', ''GOOGL'', ''AMZN'', ''META'', ''NVDA'', ''BRK-B'', ''XOM'', ''JNJ'', ''JPM'',
      ''V'', ''PG'', ''AVGO'', ''UNH'', ''HD'', ''MA'', ''LLY'', ''KO'', ''PFE'', ''PEP'', ''ABBV'', ''BAC'', ''COST'',
      ''CSCO'', ''ADBE'', ''TMO'', ''MCD'', ''NFLX'', ''DIS'', ''CRM'', ''WMT'', ''NKE'', ''TXN'', ''INTC'', ''AMD'',
      ''QCOM'', ''AMAT'', ''LIN'', ''ACN'', ''PM'', ''DHR'', ''UPS'', ''MS'', ''GS'', ''BLK'', ''CAT'', ''HON'', ''IBM'',
      ''BKNG'', ''ORCL'', ''BA'', ''SPGI'', ''GE'', ''AMT'', ''LOW'', ''MDLZ'', ''SBUX'', ''CVX'', ''NOW'', ''ISRG'']"

text \<open>
  \<^verbatim>\<open>
  def download_prices(tickers, start = "2018-01-01"):
      df = yf.download(tickers, start=start, auto_adjust=True, progress=False)["Close"]
      if isinstance(df, pd.Series):
          df = df.to_frame()
      df.index.name = "date"
      return df
  \<close>
\<close>

definition download_prices :: "price_provider \<Rightarrow> string list \<Rightarrow> string \<Rightarrow> error + frame" where
  "download_prices yf tickers start =
     (case yf tickers start of
        Inl e \<Rightarrow> Inl e
      | Inr close \<Rightarrow>
          (let df = (case close of CloseSeries s \<Rightarrow> to_frame s | CloseFrame f \<Rightarrow> f)
           in Inr (df\<lparr>index_name := Some ''date''\<rparr>)))"

section \<open>Macro series\<close>

text \<open>
  \<^verbatim>\<open>pd.concat(frames, axis=1)\<close>: the index of the result is the union of the indexes,
  in increasing order (pandas always sorts a date index that it has to align); every
  column is carried over, NaN where its own table has no row for the date. The index
  keeps a name only when all the tables agree on it. Each table has one row per date.
\<close>

definition union_index :: "frame list \<Rightarrow> int list" where
  "union_index frames = sort (remdups (concat (map index frames)))"

definition lookup_cell :: "int list \<Rightarrow> cell list \<Rightarrow> int \<Rightarrow> cell" where
  "lookup_cell idx xs d = (case map_of (zip idx xs) d of None \<Rightarrow> NaN | Some v \<Rightarrow> v)"

definition reindex_cols :: "int list \<Rightarrow> frame \<Rightarrow> (string \<times> cell list) list" where
  "reindex_cols new_index f =
     map (\<lambda>c. (fst c, map (lookup_cell (index f) (snd c)) new_index)) (cols f)"

definition common_name :: "frame list \<Rightarrow> string option" where
  "common_name frames =
     (case frames of
        [] \<Rightarrow> None
      | f # fs \<Rightarrow> (if list_all (\<lambda>g. index_name g = index_name f) fs then index_name f else None))"

definition concat_axis1 :: "frame list \<Rightarrow> frame" where
  "concat_axis1 frames =
     (let u = union_index frames
      in \<lparr>index = u, index_name = common_name frames,
          cols = concat (map (reindex_cols u) frames)\<rparr>)"

text \<open>
  \<^verbatim>\<open>macro.resample("D").ffill()\<close> upsamples: the new index is every calendar day from
  the first to the last date of the table, and pandas fills it by
  \<^verbatim>\<open>reindex(new_index, method="ffill")\<close>. Each day takes the \<^emph>\<open>row\<close> of the latest
  date of the table that is not after it, as that row is: filling while reindexing
  compares the old and the new index only and never looks at the values, so a NaN
  that a row of the table already holds is handed on unchanged. The index of the table
  is increasing here, being the one \<^verbatim>\<open>concat\<close> built.
\<close>

definition asof_cell :: "int list \<Rightarrow> cell list \<Rightarrow> int \<Rightarrow> cell" where
  "asof_cell idx xs d =
     (case filter (\<lambda>p. fst p \<le> d) (zip idx xs) of
        [] \<Rightarrow> NaN
      | p # ps \<Rightarrow> snd (last (p # ps)))"

definition calendar :: "int list \<Rightarrow> int list" where
  "calendar idx = (if idx = [] then [] else [hd idx..last idx])"

definition resample_D_ffill :: "frame \<Rightarrow> frame" where
  "resample_D_ffill f =
     (let days = calendar (index f)
      in f\<lparr>index := days,
            cols := map (\<lambda>c. (fst c, map (asof_cell (index f) (snd c)) days)) (cols f)\<rparr>)"

text \<open>
  The FRED client is outside the program: \<open>fred key code\<close> fails or answers with the
  series of that code.
  \<^verbatim>\<open>
  def get_macro(fred_key):
      fred = Fred(api_key=fred_key)
      series = {"FEDFUNDS": "fed_funds", "CPIAUCSL": "cpi", "DGS10": "treasury_10y"}
      frames = []
      for code, name in series.items():
          s = fred.get_series(code)
          s = s.rename(name).to_frame()
          frames.append(s)
      macro = pd.concat(frames, axis=1)
      macro.index.name = "date"
      macro = macro.resample("D").ffill()
      return macro
  \<close>
  The loop is \<open>fetch_frames\<close>, the three lines after it are \<open>align_daily\<close>.
\<close>

type_synonym macro_provider = "string \<Rightarrow> string \<Rightarrow> error + series"

definition macro_codes :: "(string \<times> string) list" where
  "macro_codes = [(''FEDFUNDS'', ''fed_funds''), (''CPIAUCSL'', ''cpi''), (''DGS10'', ''treasury_10y'')]"

fun fetch_frames :: "(string \<Rightarrow> error + series) \<Rightarrow> (string \<times> string) list \<Rightarrow> frame list \<Rightarrow> error + frame list" where
  "fetch_frames get_series [] frames = Inr frames"
| "fetch_frames get_series ((code, name) # items) frames =
     (case get_series code of
        Inl e \<Rightarrow> Inl e
      | Inr s \<Rightarrow> fetch_frames get_series items (frames @ [to_frame (rename name s)]))"

definition align_daily :: "frame list \<Rightarrow> frame" where
  "align_daily frames =
     (let macro = concat_axis1 frames;
          macro = macro\<lparr>index_name := Some ''date''\<rparr>
      in resample_D_ffill macro)"

definition get_macro :: "macro_provider \<Rightarrow> string \<Rightarrow> error + frame" where
  "get_macro fred fred_key =
     (case fetch_frames (fred fred_key) macro_codes [] of
        Inl e \<Rightarrow> Inl e
      | Inr frames \<Rightarrow> Inr (align_daily frames))"

section \<open>The assembled dataset\<close>

text \<open>
  \<^verbatim>\<open>left.join(right, how="left")\<close> on the index. Column names that occur on both
  sides make pandas raise. Every row of the left table is kept, in order; a row whose
  date the right index does not hold gets NaN in the right columns, and a row whose
  date it holds several times is repeated once per match.
\<close>

definition matches :: "int list \<Rightarrow> int \<Rightarrow> nat list" where
  "matches idx d = filter (\<lambda>p. idx ! p = d) [0..<length idx]"

definition join_pairs :: "int list \<Rightarrow> int list \<Rightarrow> (nat \<times> nat option) list" where
  "join_pairs lidx ridx =
     concat (map (\<lambda>i. case matches ridx (lidx ! i) of
                          [] \<Rightarrow> [(i, None)]
                        | p # ps \<Rightarrow> map (\<lambda>q. (i, Some q)) (p # ps))
                 [0..<length lidx])"

definition take_right :: "cell list \<Rightarrow> nat option \<Rightarrow> cell" where
  "take_right xs q = (case q of None \<Rightarrow> NaN | Some p \<Rightarrow> xs ! p)"

definition join_left :: "frame \<Rightarrow> frame \<Rightarrow> error + frame" where
  "join_left l r =
     (if list_ex (\<lambda>n. n \<in> set (columns r)) (columns l)
      then Inl (ValueError ''columns overlap but no suffix specified'')
      else
        (let pairs = join_pairs (index l) (index r)
         in Inr \<lparr>index = map (\<lambda>q. index l ! fst q) pairs,
                 index_name = index_name l,
                 cols = map (\<lambda>c. (fst c, map (\<lambda>q. snd c ! fst q) pairs)) (cols l) @
                        map (\<lambda>c. (fst c, map (\<lambda>q. take_right (snd c) (snd q)) pairs)) (cols r)\<rparr>))"

text \<open>
  Lines 99 to 102 of \<^verbatim>\<open>main\<close>:
  \<^verbatim>\<open>
  df = rets.copy()
  if fred_key:
      df = df.join(macro, how="left").ffill()
  \<close>
  The local \<^verbatim>\<open>macro\<close> is bound only when the first \<^verbatim>\<open>if fred_key:\<close> has run, so it
  is an option here.
\<close>

definition assemble :: "string \<Rightarrow> frame \<Rightarrow> frame option \<Rightarrow> error + frame" where
  "assemble fred_key rets macro =
     (let df = rets
      in if fred_key \<noteq> []
         then (case macro of
                 None \<Rightarrow> Inl (NameError ''macro'')
               | Some m \<Rightarrow> (case join_left df m of Inl e \<Rightarrow> Inl e | Inr j \<Rightarrow> Inr (ffill j)))
         else Inr df)"

section \<open>Factors\<close>

text \<open>
  \<^verbatim>\<open>rets.rolling(30).std()\<close>: the sample standard deviation (\<^verbatim>\<open>ddof=1\<close>, the pandas
  default) of the last \<open>w\<close> rows, NaN until \<open>w\<close> rows are there and NaN when the window
  holds a NaN. A window that holds an infinity is given NaN as well.
\<close>

definition cell_value :: "cell \<Rightarrow> real option" where
  "cell_value c = (case c of Fin a \<Rightarrow> Some a | _ \<Rightarrow> None)"

definition sample_std :: "cell list \<Rightarrow> cell" where
  "sample_std win =
     (if list_all (\<lambda>c. cell_value c \<noteq> None) win \<and> 2 \<le> length win
      then (let vs = map (\<lambda>c. the (cell_value c)) win;
                m = sum_list vs / real (length vs)
            in Fin (sqrt (sum_list (map (\<lambda>v. (v - m) ^ 2) vs) / real (length vs - 1))))
      else NaN)"

definition rolling_std_col :: "nat \<Rightarrow> cell list \<Rightarrow> cell list" where
  "rolling_std_col w xs =
     map (\<lambda>t. if Suc t < w then NaN else sample_std (take w (drop (Suc t - w) xs)))
         [0..<length xs]"

definition rolling_std :: "nat \<Rightarrow> frame \<Rightarrow> frame" where
  "rolling_std w f = map_cols (rolling_std_col w) f"

definition add_suffix :: "string \<Rightarrow> frame \<Rightarrow> frame" where
  "add_suffix sfx f = f\<lparr>cols := map (\<lambda>c. (fst c @ sfx, snd c)) (cols f)\<rparr>"

text \<open>
  Lines 109 to 121 of \<^verbatim>\<open>main\<close>:
  \<^verbatim>\<open>
  mom30 = prices.pct_change(30)
  mom90 = prices.pct_change(90)
  vol30 = rets.rolling(30).std()
  mom30.columns = [f"{c}_mom30" for c in mom30.columns]
  mom90.columns = [f"{c}_mom90" for c in mom90.columns]
  vol30.columns = [f"{c}_vol30" for c in vol30.columns]
  features = pd.concat([mom30, mom90, vol30], axis=1).dropna(how="all")
  features.index.name = "date"
  \<close>
\<close>

definition basic_features :: "bool \<Rightarrow> frame \<Rightarrow> frame \<Rightarrow> frame" where
  "basic_features pad prices rets =
     (let mom30 = pct_change pad 30 prices;
          mom90 = pct_change pad 90 prices;
          vol30 = rolling_std 30 rets;
          mom30 = add_suffix ''_mom30'' mom30;
          mom90 = add_suffix ''_mom90'' mom90;
          vol30 = add_suffix ''_vol30'' vol30;
          features = dropna_all (concat_axis1 [mom30, mom90, vol30])
      in features\<lparr>index_name := Some ''date''\<rparr>)"

section \<open>The run\<close>

text \<open>
  What a run can change: the directories that exist, the tables written (by path) and
  the text printed. What it reads: the process environment, as it is after
  \<^verbatim>\<open>load_dotenv()\<close>, and the price provider.
\<close>

record world =
  dirs :: "string set"
  files :: "string \<rightharpoonup> frame"
  stdout :: string

record env =
  environ :: "string \<rightharpoonup> string"
  yf_download :: price_provider

definition DATA_RAW :: string where
  "DATA_RAW = ''data/raw''"

definition DATA_PROC :: string where
  "DATA_PROC = ''data/processed''"

definition ensure_dirs :: "world \<Rightarrow> world" where
  "ensure_dirs w = w\<lparr>dirs := dirs w \<union> {''data'', DATA_RAW, DATA_PROC}\<rparr>"

definition getenv :: "(string \<rightharpoonup> string) \<Rightarrow> string \<Rightarrow> string \<Rightarrow> string" where
  "getenv e k dflt = (case e k of None \<Rightarrow> dflt | Some v \<Rightarrow> v)"

definition to_csv :: "frame \<Rightarrow> string \<Rightarrow> world \<Rightarrow> world" where
  "to_csv df path w = w\<lparr>files := (files w)(path \<mapsto> df)\<rparr>"

text \<open>
  \<^verbatim>\<open>main\<close> calls \<^verbatim>\<open>fetch_macro(fred_key)\<close>. Python looks the name up among the
  globals of the module when the call runs; \<open>None\<close> is a name that is not bound, and the
  call raises \<^verbatim>\<open>NameError\<close>. The module defines \<^verbatim>\<open>get_macro\<close> and neither defines
  nor imports \<^verbatim>\<open>fetch_macro\<close>, which is \<open>module_fetch_macro\<close>.
\<close>

type_synonym macro_fetcher = "(string \<Rightarrow> error + frame) option"

definition call_fetch_macro :: "macro_fetcher \<Rightarrow> string \<Rightarrow> error + frame" where
  "call_fetch_macro g fred_key =
     (case g of None \<Rightarrow> Inl (NameError ''fetch_macro'') | Some f \<Rightarrow> f fred_key)"

definition module_fetch_macro :: macro_fetcher where
  "module_fetch_macro = None"

text \<open>
  Lines 93 to 95:
  \<^verbatim>\<open>
  if fred_key:
      macro = fetch_macro(fred_key)
      macro.to_csv(f"{DATA_RAW}/macro.csv")
  \<close>
\<close>

definition macro_stage :: "macro_fetcher \<Rightarrow> string \<Rightarrow> world \<Rightarrow> error + (frame option \<times> world)" where
  "macro_stage g fred_key w =
     (if fred_key \<noteq> []
      then (case call_fetch_macro g fred_key of
              Inl e \<Rightarrow> Inl e
            | Inr macro \<Rightarrow> Inr (Some macro, to_csv macro (DATA_RAW @ ''/macro.csv'') w))
      else Inr (None, w))"

text \<open>
  The closing \<^verbatim>\<open>print\<close>: its five arguments joined by blanks, then a newline. The
  first three bytes are the check mark of the source in UTF-8.
\<close>

definition report :: string where
  "report =
     [CHR 0xE2, CHR 0x9C, CHR 0x85] @ '' Data pipeline complete:'' @
     '' '' @ [CHR 0x0A] @ ''  prices -> '' @ DATA_RAW @ ''/prices.csv'' @
     '' '' @ [CHR 0x0A] @ ''  returns -> '' @ DATA_PROC @ ''/daily_returns.csv'' @
     '' '' @ [CHR 0x0A] @ ''  features -> '' @ DATA_PROC @ ''/features_basic.csv'' @
     '' '' @ [CHR 0x0A] @ ''  macro -> '' @ DATA_RAW @ ''/macro.csv (if key provided)'' @
     [CHR 0x0A]"

definition print_report :: "world \<Rightarrow> world" where
  "print_report w = w\<lparr>stdout := stdout w @ report\<rparr>"

text \<open>
  \<^verbatim>\<open>main\<close>, statement by statement. The result is the world the run leaves and
  \<open>Inr ()\<close> when \<^verbatim>\<open>main\<close> returns (it returns \<^verbatim>\<open>None\<close>), or the exception that ended
  it: the program catches none.
\<close>

definition main :: "bool \<Rightarrow> macro_fetcher \<Rightarrow> env \<Rightarrow> world \<Rightarrow> world \<times> (error + unit)" where
  "main pad fetch_macro e w0 =
     (let w1 = ensure_dirs w0;
          fred_key = getenv (environ e) ''FRED_API_KEY'' [];
          tickers = get_universe
      in case download_prices (yf_download e) tickers ''2018-01-01'' of
           Inl err \<Rightarrow> (w1, Inl err)
         | Inr prices \<Rightarrow>
             (let w2 = to_csv prices (DATA_RAW @ ''/prices.csv'') w1;
                  rets = compute_returns pad prices;
                  w3 = to_csv rets (DATA_PROC @ ''/daily_returns.csv'') w2
              in case macro_stage fetch_macro fred_key w3 of
                   Inl err \<Rightarrow> (w3, Inl err)
                 | Inr (macro, w4) \<Rightarrow>
                     (case assemble fred_key rets macro of
                        Inl err \<Rightarrow> (w4, Inl err)
                      | Inr df \<Rightarrow>
                          (let features = basic_features pad prices rets;
                               w5 = to_csv features (DATA_PROC @ ''/features_basic.csv'') w4
                           in (print_report w5, Inr ())))))"

section \<open>Predicates and example inputs of the statements\<close>

text \<open>
  Two instruments over three days; the second one is listed from the second day on.
\<close>

definition prices_late_listing :: frame where
  "prices_late_listing =
     \<lparr>index = [1, 2, 3], index_name = Some ''date'',
      cols = [(''AAA'', [Fin 100, Fin 102, Fin 101]), (''BBB'', [NaN, Fin 50, Fin 51])]\<rparr>"

text \<open>A provider answer covers one instrument when it is a flat series or a table of one column.\<close>

definition single_instrument :: "close_data \<Rightarrow> bool" where
  "single_instrument close =
     (case close of CloseSeries s \<Rightarrow> True | CloseFrame f \<Rightarrow> length (cols f) = 1)"

text \<open>What the price provider answers for one ticker: a flat series.\<close>

definition one_ticker_close :: series where
  "one_ticker_close =
     \<lparr>s_index = [1, 2], s_index_name = Some ''Date'', s_name = ''Close'',
      s_values = [Fin 100, Fin 102]\<rparr>"

text \<open>One indicator, observed on day 1 and on day 5.\<close>

definition fed_funds_obs :: series where
  "fed_funds_obs =
     \<lparr>s_index = [1, 5], s_index_name = None, s_name = ''FEDFUNDS'',
      s_values = [Fin 5, Fin (21 / 4)]\<rparr>"

text \<open>
  A FRED answer in which the two monthly indicators are observed on day 1 only and the
  daily one on days 1 and 2.
\<close>

definition fred_two_dates :: macro_provider where
  "fred_two_dates fred_key code =
     (if code = ''FEDFUNDS''
      then Inr \<lparr>s_index = [1], s_index_name = None, s_name = code, s_values = [Fin 5]\<rparr>
      else if code = ''CPIAUCSL''
      then Inr \<lparr>s_index = [1], s_index_name = None, s_name = code, s_values = [Fin 300]\<rparr>
      else if code = ''DGS10''
      then Inr \<lparr>s_index = [1, 2], s_index_name = None, s_name = code, s_values = [Fin 4, Fin (41 / 10)]\<rparr>
      else Inl (ProviderError code))"

text \<open>A second indicator, observed on day 6 only.\<close>

definition treasury_obs :: series where
  "treasury_obs =
     \<lparr>s_index = [6], s_index_name = None, s_name = ''DGS10'', s_values = [Fin 4]\<rparr>"

text \<open>An observed price is a finite positive number.\<close>

definition positive_price :: "cell \<Rightarrow> bool" where
  "positive_price c = (case c of Fin a \<Rightarrow> 0 < a | _ \<Rightarrow> False)"

text \<open>One instrument with a price on each of 31 days: 100, 101, up to 130.\<close>

definition rising_31 :: "cell list" where
  "rising_31 = map (\<lambda>d. Fin (of_int (99 + d))) [1..31]"

definition prices_31_days :: frame where
  "prices_31_days = \<lparr>index = [1..31], index_name = Some ''date'', cols = [(''AAA'', rising_31)]\<rparr>"

text \<open>
  One instrument over four days, and a daily macro table that ends a day before the
  prices do.
\<close>

definition prices_4_days :: frame where
  "prices_4_days =
     \<lparr>index = [1, 2, 3, 4], index_name = Some ''date'',
      cols = [(''AAPL'', [Fin 100, Fin 102, Fin 101, Fin 105])]\<rparr>"

definition macro_3_days :: frame where
  "macro_3_days =
     \<lparr>index = [1, 2, 3], index_name = Some ''date'',
      cols = [(''fed_funds'', [Fin 5, Fin 5, Fin (21 / 4)])]\<rparr>"

text \<open>The position of a date in an index that holds it at most once.\<close>

definition pos_of :: "int list \<Rightarrow> int \<Rightarrow> nat option" where
  "pos_of idx d = (case matches idx d of [] \<Rightarrow> None | p # ps \<Rightarrow> Some p)"

text \<open>
  A world with nothing in it, a price provider that answers with the four-day table,
  and two environments: one without the variable \<^verbatim>\<open>FRED_API_KEY\<close>, one with it.
\<close>

definition fresh_world :: world where
  "fresh_world = \<lparr>dirs = {}, files = Map.empty, stdout = []\<rparr>"

definition yf_4_days :: price_provider where
  "yf_4_days tickers start = Inr (CloseFrame prices_4_days)"

definition env_no_key :: env where
  "env_no_key = \<lparr>environ = Map.empty, yf_download = yf_4_days\<rparr>"

definition env_with_key :: env where
  "env_with_key = \<lparr>environ = [''FRED_API_KEY'' \<mapsto> ''key''], yf_download = yf_4_days\<rparr>"

text \<open>
  For the statement that the daily macro table does not look ahead: the observations
  of a table dated up to \<open>d\<close>, the row a table has for a date, and the row of the
  latest date among a list of tables.
\<close>

definition upto_date :: "int \<Rightarrow> frame \<Rightarrow> frame" where
  "upto_date d f = select_rows (map (\<lambda>x. x \<le> d) (index f)) f"

definition row_at :: "frame \<Rightarrow> int \<Rightarrow> (string \<times> cell) list" where
  "row_at f d = map (\<lambda>c. (fst c, lookup_cell (index f) (snd c) d)) (cols f)"

definition latest_row :: "frame list \<Rightarrow> (string \<times> cell) list" where
  "latest_row frames =
     concat (map (\<lambda>f. map (\<lambda>c. (fst c,
                    (case union_index frames of
                       [] \<Rightarrow> NaN
                     | y # ys \<Rightarrow> lookup_cell (index f) (snd c) (last (y # ys)))))
                  (cols f)) frames)"

section \<open>Auxiliary facts about lists and columns\<close>

lemma set_sel_nth:
  assumes "x \<in> set (sel keep xs)"
  obtains i where "i < length keep" "i < length xs" "keep ! i" "xs ! i = x"
  using assms by (auto simp: sel_def set_zip)

lemma length_sel: "length xs = length keep \<Longrightarrow> length (sel keep xs) = length (filter (\<lambda>b. b) keep)"
proof (induction keep arbitrary: xs)
  case Nil then show ?case by (simp add: sel_def)
next
  case (Cons b keep)
  then obtain y ys where "xs = y # ys" "length ys = length keep" by (cases xs) auto
  with Cons.IH [of ys] show ?case by (simp add: sel_def)
qed

lemma sel_all_true: "length m = length ys \<Longrightarrow> list_all (\<lambda>b. b) m \<Longrightarrow> sel m ys = ys"
  by (induction m ys rule: list_induct2) (simp_all add: sel_def)

lemma sel_not_first: "sel (map (\<lambda>i. i \<noteq> 0) [0..<length ys]) ys = tl ys"
proof (cases ys)
  case Nil then show ?thesis by (simp add: sel_def)
next
  case (Cons y zs)
  have u: "[0..<length ys] = 0 # [Suc 0..<length ys]"
    by (rule upt_conv_Cons) (simp add: Cons)
  have "sel (map (\<lambda>i. i \<noteq> 0) [0..<length ys]) ys
      = sel (map (\<lambda>i. i \<noteq> 0) (0 # [Suc 0..<length ys])) (y # zs)"
    by (subst u) (simp only: Cons)
  also have "\<dots> = sel (map (\<lambda>i. i \<noteq> 0) [Suc 0..<length ys]) zs"
    by (simp add: sel_def)
  also have "\<dots> = zs"
    by (rule sel_all_true) (simp_all add: list_all_iff Cons del: upt_Suc)
  finally have r: "sel (map (\<lambda>i. i \<noteq> 0) [0..<length ys]) ys = zs" .
  have "tl ys = zs" using Cons by simp
  with r show ?thesis by (simp only:)
qed

lemma sel_map_self: "sel (map P xs) xs = filter P xs"
  by (induction xs) (simp_all add: sel_def)

lemma zip_sel:
  "length xs = length ys \<Longrightarrow>
   zip (sel (map P xs) xs) (sel (map P xs) ys) = filter (\<lambda>p. P (fst p)) (zip xs ys)"
  by (induction xs ys rule: list_induct2) (simp_all add: sel_def)

lemma map_of_filter_fst: "P k \<Longrightarrow> map_of (filter (\<lambda>p. P (fst p)) ps) k = map_of ps k"
  by (induction ps) auto

lemma case_last_nonempty:
  "xs \<noteq> [] \<Longrightarrow> (case xs of [] \<Rightarrow> a | p # ps \<Rightarrow> g (last (p # ps))) = g (last xs)"
  by (cases xs) simp_all

lemma filter_le_upto:
  assumes "lo \<le> d" and "d \<le> hi"
  shows "filter (\<lambda>x. x \<le> d) [lo..hi] = [lo..d]"
proof -
  have "[lo..hi] = [lo..d] @ [d + 1..hi]"
    using assms by (rule upto_split2)
  moreover have "filter (\<lambda>x. x \<le> d) [lo..d] = [lo..d]"
    by (rule filter_True) simp
  moreover have "filter (\<lambda>x. x \<le> d) [d + 1..hi] = []"
    by (rule filter_False) simp
  ultimately show ?thesis by simp
qed

lemma distinct_all_equal_short:
  assumes "distinct xs" and "\<And>x y. x \<in> set xs \<Longrightarrow> y \<in> set xs \<Longrightarrow> x = y"
  shows "xs = [] \<or> (\<exists>x. xs = [x])"
proof (cases xs)
  case Nil then show ?thesis by simp
next
  case (Cons x ys)
  show ?thesis
  proof (cases ys)
    case Nil with Cons show ?thesis by simp
  next
    case (Cons y zs)
    with \<open>xs = x # ys\<close> assms(2) [of x y] assms(1) show ?thesis by simp
  qed
qed

lemma length_ffill_from [simp]: "length (ffill_from v xs) = length xs"
  by (induction xs arbitrary: v) simp_all

lemma length_ffill_col [simp]: "length (ffill_col xs) = length xs"
  by (simp add: ffill_col_def)

lemma ffill_from_notna: "list_all (\<lambda>x. \<not> isna x) xs \<Longrightarrow> ffill_from v xs = xs"
  by (induction xs arbitrary: v) simp_all

lemma ffill_from_idem:
  "(isna w \<Longrightarrow> isna v) \<Longrightarrow> ffill_from v (ffill_from w xs) = ffill_from w xs"
proof (induction xs arbitrary: v w)
  case Nil then show ?case by simp
next
  case (Cons x xs)
  show ?case
  proof (cases "isna x")
    case False
    then show ?thesis using Cons.IH [of x x] by simp
  next
    case x: True
    show ?thesis
    proof (cases "isna w")
      case True
      with Cons.prems have "isna v" by simp
      with True have "v = w" by (simp add: isna_def)
      with x True show ?thesis using Cons.IH [of w w] by simp
    next
      case False
      with x show ?thesis using Cons.IH [of w w] by simp
    qed
  qed
qed

lemma ffill_col_idem: "ffill_col (ffill_col xs) = ffill_col xs"
  unfolding ffill_col_def by (rule ffill_from_idem) simp

lemma ffill_idem: "ffill (ffill f) = ffill f"
  by (simp add: ffill_def map_cols_def comp_def ffill_col_idem)

lemma ffill_col_listed:
  assumes "list_all isna (take L xs)" and "list_all (\<lambda>x. \<not> isna x) (drop L xs)"
  shows "ffill_col xs = xs"
  using assms unfolding ffill_col_def
proof (induction xs arbitrary: L)
  case Nil then show ?case by simp
next
  case (Cons x xs)
  show ?case
  proof (cases L)
    case 0
    with Cons.prems(2) show ?thesis by (simp add: ffill_from_notna)
  next
    case (Suc L')
    with Cons.prems have x: "isna x" and pre: "list_all isna (take L' xs)"
      and post: "list_all (\<lambda>x. \<not> isna x) (drop L' xs)"
      by simp_all
    from pre post have "ffill_from NaN xs = xs" by (rule Cons.IH)
    moreover from x have "x = NaN" by (simp add: isna_def)
    ultimately show ?thesis by (simp add: isna_def)
  qed
qed

lemma ffill_from_nth:
  "i < length xs \<Longrightarrow>
   ffill_from v xs ! i =
     (case filter (\<lambda>x. \<not> isna x) (take (Suc i) xs) of [] \<Rightarrow> v | y # ys \<Rightarrow> last (y # ys))"
proof (induction xs arbitrary: v i)
  case Nil then show ?case by simp
next
  case (Cons x xs)
  show ?case
  proof (cases i)
    case 0 then show ?thesis by simp
  next
    case (Suc j)
    with Cons.prems have j: "j < length xs" by simp
    show ?thesis
      using Cons.IH [OF j, of v] Cons.IH [OF j, of x] Suc
      by (simp split: list.splits)
  qed
qed

lemma ffill_col_nth:
  "i < length xs \<Longrightarrow>
   ffill_col xs ! i =
     (case filter (\<lambda>x. \<not> isna x) (take (Suc i) xs) of [] \<Rightarrow> NaN | y # ys \<Rightarrow> last (y # ys))"
  unfolding ffill_col_def by (rule ffill_from_nth)

lemma length_shift [simp]: "length (shift k xs) = length xs"
  by (simp add: shift_def)

lemma shift_nth: "t < length xs \<Longrightarrow> shift k xs ! t = (if t < k then NaN else xs ! (t - k))"
  by (simp add: shift_def nth_append)

lemma fdiv_NaN_right [simp]: "fdiv a NaN = NaN"
  by (cases a) simp_all

lemma pct_NaN [simp]: "pct a NaN = NaN" "pct NaN b = NaN"
  by (simp_all add: pct_def)

lemma length_pct_change_col [simp]: "length (pct_change_col pad k xs) = length xs"
  by (simp add: pct_change_col_def Let_def)

lemma pct_change_col_nth:
  assumes "t < length xs"
  shows "pct_change_col pad k xs ! t =
           (let d = (if pad then ffill_col xs else xs)
            in if t < k then NaN else pct (d ! t) (d ! (t - k)))"
  using assms by (simp add: pct_change_col_def Let_def shift_nth)

lemma positive_price_notna: "positive_price c \<Longrightarrow> \<not> isna c"
  by (cases c) (simp_all add: positive_price_def isna_def)

lemma pct_positive:
  assumes "positive_price a" and "positive_price b"
  shows "pct a b = Fin (the (cell_value a) / the (cell_value b) - 1)"
  using assms by (cases a; cases b) (simp_all add: positive_price_def pct_def cell_value_def)

lemma pct_change_col_positive:
  assumes "list_all positive_price xs" and "t < length xs"
  shows "pct_change_col pad 1 xs ! t =
           (if t = 0 then NaN
            else Fin (the (cell_value (xs ! t)) / the (cell_value (xs ! (t - 1))) - 1))"
proof -
  have "list_all (\<lambda>x. \<not> isna x) xs"
    using assms(1) by (auto simp: list_all_iff positive_price_notna)
  then have ff: "ffill_col xs = xs" unfolding ffill_col_def by (rule ffill_from_notna)
  show ?thesis
  proof (cases "t = 0")
    case True
    then show ?thesis using pct_change_col_nth [OF assms(2), of pad 1] by (simp add: Let_def)
  next
    case False
    with assms have "positive_price (xs ! t)" "positive_price (xs ! (t - 1))"
      by (simp_all add: list_all_length)
    then have "pct (xs ! t) (xs ! (t - 1)) =
        Fin (the (cell_value (xs ! t)) / the (cell_value (xs ! (t - 1))) - 1)"
      by (rule pct_positive)
    with False show ?thesis
      using pct_change_col_nth [OF assms(2), of pad 1] by (simp add: Let_def ff)
  qed
qed

section \<open>The price matrix\<close>

text \<open>
  C9. A provider answer that covers one instrument is normalised to a table with one
  column: a flat series becomes the one-column table of its values under its own name
  and index, a one-column table stays as it is, and the index is named \<^verbatim>\<open>date\<close>.
  The result is a table in either case.
\<close>

theorem download_prices_single_instrument:
  assumes "yf tickers start = Inr close" and "single_instrument close"
  shows "\<exists>df. download_prices yf tickers start = Inr df \<and> length (columns df) = 1 \<and>
           index_name df = Some ''date'' \<and>
           df = (case close of
                   CloseSeries s \<Rightarrow>
                     \<lparr>index = s_index s, index_name = Some ''date'', cols = [(s_name s, s_values s)]\<rparr>
                 | CloseFrame f \<Rightarrow> f\<lparr>index_name := Some ''date''\<rparr>)"
  using assms
  by (cases close) (simp_all add: download_prices_def single_instrument_def to_frame_def columns_def)

theorem download_prices_single_instrument_witness:
  "(\<lambda>ts st. Inr (CloseSeries one_ticker_close)) [''AAPL''] ''2018-01-01'' = Inr (CloseSeries one_ticker_close) \<and>
   single_instrument (CloseSeries one_ticker_close) \<and>
   download_prices (\<lambda>ts st. Inr (CloseSeries one_ticker_close)) [''AAPL''] ''2018-01-01'' =
     Inr \<lparr>index = [1, 2], index_name = Some ''date'', cols = [(''Close'', [Fin 100, Fin 102])]\<rparr>"
  using download_prices_single_instrument
    [of "\<lambda>ts st. Inr (CloseSeries one_ticker_close)" "[''AAPL'']" "''2018-01-01''" "CloseSeries one_ticker_close"]
  by (simp add: single_instrument_def one_ticker_close_def)

section \<open>The return matrix\<close>

lemma cols_compute_returns:
  "cols (compute_returns pad prices) =
     map (\<lambda>c. (fst c, sel (map (row_complete (pct_change pad 1 prices)) [0..<nrows prices]) (snd c)))
       (cols (pct_change pad 1 prices))"
  by (simp add: compute_returns_def dropna_def select_rows_def Let_def nrows_def pct_change_def map_cols_def)

lemma index_compute_returns:
  "index (compute_returns pad prices) =
     sel (map (row_complete (pct_change pad 1 prices)) [0..<nrows prices]) (index prices)"
  by (simp add: compute_returns_def dropna_def select_rows_def Let_def nrows_def pct_change_def map_cols_def)

lemma index_name_compute_returns [simp]: "index_name (compute_returns pad prices) = Some ''date''"
  by (simp add: compute_returns_def Let_def)

lemma compute_returns_cell_notna:
  assumes "c \<in> set (cols (compute_returns pad prices))" and "x \<in> set (snd c)"
  shows "\<not> isna x"
proof -
  define pc where "pc = pct_change pad 1 prices"
  define keep where "keep = map (row_complete pc) [0..<nrows prices]"
  have cs: "cols (compute_returns pad prices) = map (\<lambda>c. (fst c, sel keep (snd c))) (cols pc)"
    unfolding keep_def pc_def by (rule cols_compute_returns)
  from assms(1) obtain c0 where c0: "c0 \<in> set (cols pc)" and c: "c = (fst c0, sel keep (snd c0))"
    unfolding cs by auto
  from assms(2) c have "x \<in> set (sel keep (snd c0))" by simp
  then obtain i where i: "i < length keep" "keep ! i" "snd c0 ! i = x"
    by (rule set_sel_nth)
  from i(1,2) have "row_complete pc i" by (simp add: keep_def)
  with c0 have "\<not> isna (snd c0 ! i)" by (simp add: row_complete_def list_all_iff)
  with i(3) show ?thesis by simp
qed

lemma wf_compute_returns:
  assumes "wf_frame prices"
  shows "wf_frame (compute_returns pad prices)"
proof -
  have "length (sel (map (row_complete (pct_change pad 1 prices)) [0..<nrows prices]) (pct_change_col pad 1 (snd c)))
        = length (sel (map (row_complete (pct_change pad 1 prices)) [0..<nrows prices]) (index prices))"
    if "c \<in> set (cols prices)" for c
  proof -
    from assms that have "length (snd c) = length (index prices)"
      by (simp add: wf_frame_def list_all_iff)
    then show ?thesis by (simp add: length_sel nrows_def)
  qed
  then show ?thesis
    by (simp add: wf_frame_def list_all_iff cols_compute_returns index_compute_returns
        pct_change_def map_cols_def)
qed

lemma compute_returns_late_listing:
  "compute_returns pad prices_late_listing =
     \<lparr>index = [3], index_name = Some ''date'',
      cols = [(''AAA'', [Fin (- 1 / 102)]), (''BBB'', [Fin (1 / 50)])]\<rparr>"
  by (cases pad)
     (simp_all add: prices_late_listing_def compute_returns_def dropna_def pct_change_def map_cols_def
        pct_change_col_def shift_def ffill_col_def isna_def pct_def select_rows_def sel_def
        row_complete_def nrows_def upt_rec)

lemma compute_returns_4_days:
  "compute_returns pad prices_4_days =
     \<lparr>index = [2, 3, 4], index_name = Some ''date'',
      cols = [(''AAPL'', [Fin (1 / 50), Fin (- 1 / 102), Fin (4 / 101)])]\<rparr>"
  by (cases pad) (simp_all, code_simp+)

text \<open>
  C10. The return matrix holds no undefined cell: \<^verbatim>\<open>dropna()\<close> keeps exactly the rows
  of the percent-change table in which every instrument has a value, so a row where
  one instrument's return is NaN goes as a whole and every row kept is defined in
  every column.
\<close>

theorem compute_returns_complete_rows:
  "(\<forall>c \<in> set (cols (compute_returns pad prices)). \<forall>x \<in> set (snd c). \<not> isna x) \<and>
   index (compute_returns pad prices) =
     sel (map (row_complete (pct_change pad 1 prices)) [0..<nrows prices]) (index prices)"
  using compute_returns_cell_notna index_compute_returns by blast

theorem compute_returns_complete_rows_witness:
  "(''BBB'', [Fin (1 / 50)]) \<in> set (cols (compute_returns False prices_late_listing)) \<and>
   Fin (1 / 50) \<in> set (snd (''BBB'', [Fin (1 / 50)])) \<and>
   \<not> isna (Fin (1 / 50)) \<and>
   index (compute_returns False prices_late_listing) = [3]"
  using compute_returns_complete_rows [of False prices_late_listing]
  by (simp add: compute_returns_late_listing)

text \<open>
  C1. On a price matrix of three rows in which the second instrument has no price on
  the first day, the return matrix has one row, not two: the row of day 2 is dropped
  although the first instrument's return is defined there (it is 102/100 - 1), since
  the second instrument's predecessor price is missing.
\<close>

theorem compute_returns_drops_incomplete_rows:
  "nrows prices_late_listing = 3 \<and>
   nrows (compute_returns pad prices_late_listing) = 1 \<and>
   index (compute_returns pad prices_late_listing) = [3] \<and>
   snd (cols (pct_change pad 1 prices_late_listing) ! 0) ! 1 = Fin (1 / 50)"
  by (cases pad)
    (simp_all add: compute_returns_late_listing nrows_def, simp_all add: prices_late_listing_def
       pct_change_def map_cols_def pct_change_col_def shift_def ffill_col_def isna_def pct_def)

lemma dense_mask:
  assumes "wf_frame prices" and "cols prices \<noteq> []"
      and "list_all (\<lambda>c. list_all positive_price (snd c)) (cols prices)"
  shows "map (row_complete (pct_change pad 1 prices)) [0..<nrows prices]
         = map (\<lambda>i. i \<noteq> 0) [0..<nrows prices]"
proof (rule map_cong [OF refl])
  fix i assume "i \<in> set [0..<nrows prices]"
  then have i: "i < length (index prices)" by (simp add: nrows_def)
  have "\<not> isna (pct_change_col pad 1 (snd c) ! i) \<longleftrightarrow> i \<noteq> 0" if "c \<in> set (cols prices)" for c
  proof -
    from that assms(1,3) have "length (snd c) = length (index prices)" "list_all positive_price (snd c)"
      by (simp_all add: wf_frame_def list_all_iff)
    with i show ?thesis
      using pct_change_col_positive [of "snd c" i pad] by (simp add: isna_def)
  qed
  then have "row_complete (pct_change pad 1 prices) i = list_all (\<lambda>c. i \<noteq> 0) (cols prices)"
    by (simp add: row_complete_def pct_change_def map_cols_def list_all_iff)
  also have "\<dots> = (i \<noteq> 0)"
    using assms(2) by (cases "cols prices") (auto simp: list_all_iff)
  finally show "row_complete (pct_change pad 1 prices) i = (i \<noteq> 0)" .
qed

text \<open>
  Where every instrument has an observed price on every date, the return matrix is the
  percent-change table without its first row: one row less than the price matrix, the
  same columns, and \<open>price[t] / price[t - 1] - 1\<close> in every cell.
\<close>

lemma compute_returns_dense:
  assumes "wf_frame prices" and "cols prices \<noteq> []"
      and "list_all (\<lambda>c. list_all positive_price (snd c)) (cols prices)"
  shows "compute_returns pad prices =
           \<lparr>index = tl (index prices), index_name = Some ''date'',
            cols = map (\<lambda>c. (fst c, tl (pct_change_col pad 1 (snd c)))) (cols prices)\<rparr>"
proof -
  have i: "index (compute_returns pad prices) = tl (index prices)"
    by (simp only: index_compute_returns dense_mask [OF assms]) (simp only: nrows_def sel_not_first)
  have "sel (map (\<lambda>i. i \<noteq> 0) [0..<nrows prices]) (pct_change_col pad 1 (snd c))
        = tl (pct_change_col pad 1 (snd c))" if "c \<in> set (cols prices)" for c
  proof -
    from that assms(1) have "nrows prices = length (pct_change_col pad 1 (snd c))"
      by (simp add: wf_frame_def list_all_iff nrows_def)
    then show ?thesis by (simp only: sel_not_first)
  qed
  then have c: "cols (compute_returns pad prices) =
      map (\<lambda>c. (fst c, tl (pct_change_col pad 1 (snd c)))) (cols prices)"
    by (simp only: cols_compute_returns dense_mask [OF assms])
       (simp add: pct_change_def map_cols_def)
  have "compute_returns pad prices =
      \<lparr>index = index (compute_returns pad prices),
       index_name = index_name (compute_returns pad prices),
       cols = cols (compute_returns pad prices)\<rparr>"
    by simp
  then show ?thesis unfolding i c by simp
qed

lemma compute_returns_dense_rows:
  assumes "wf_frame prices" and "cols prices \<noteq> []"
      and "list_all (\<lambda>c. list_all positive_price (snd c)) (cols prices)"
  shows "nrows (compute_returns pad prices) = nrows prices - 1"
    and "columns (compute_returns pad prices) = columns prices"
  by (simp_all add: compute_returns_dense [OF assms] nrows_def columns_def comp_def)

lemma compute_returns_dense_cell:
  assumes "list_all positive_price xs" and "Suc t < length xs"
  shows "tl (pct_change_col pad 1 xs) ! t =
           Fin (the (cell_value (xs ! Suc t)) / the (cell_value (xs ! t)) - 1)"
  using pct_change_col_positive [OF assms(1), of "Suc t" pad] assms(2)
  by (simp add: nth_tl)

section \<open>Momentum\<close>

lemma mom30_31_days:
  "cols (pct_change pad 30 prices_31_days) = [(''AAA'', replicate 30 NaN @ [Fin (3 / 10)])]"
  by (cases pad) (simp_all, code_simp+)

lemma rising_31_facts:
  "length rising_31 = 31" "list_all positive_price rising_31"
  "rising_31 ! 30 = Fin 130" "rising_31 ! 0 = Fin 100"
  by code_simp+

text \<open>
  C3. For an instrument whose column is missing on its first \<open>L\<close> rows and holds
  observed prices from then on, the 30-day momentum \<^verbatim>\<open>prices.pct_change(30)\<close> at row
  \<open>t\<close> is undefined when fewer than 30 observed prices precede it, that is on the rows
  before the listing and on the first 30 rows of the observed history, and is
  \<open>price[t] / price[t - 30] - 1\<close> on every later row.
\<close>

theorem momentum_30_after_30_rows:
  assumes "c \<in> set (cols prices)"
      and "list_all isna (take L (snd c))"
      and "list_all positive_price (drop L (snd c))"
      and "t < length (snd c)"
  shows "(fst c, pct_change_col pad 30 (snd c)) \<in> set (cols (pct_change pad 30 prices)) \<and>
         pct_change_col pad 30 (snd c) ! t =
           (if t < L + 30 then NaN
            else Fin (the (cell_value (snd c ! t)) / the (cell_value (snd c ! (t - 30))) - 1))"
proof -
  let ?xs = "snd c"
  have notna: "list_all (\<lambda>x. \<not> isna x) (drop L ?xs)"
    using assms(3) by (auto simp: list_all_iff positive_price_notna)
  have ff: "ffill_col ?xs = ?xs" using assms(2) notna by (rule ffill_col_listed)
  have nth: "pct_change_col pad 30 ?xs ! t = (if t < 30 then NaN else pct (?xs ! t) (?xs ! (t - 30)))"
    using pct_change_col_nth [OF assms(4), of pad 30] by (simp add: Let_def ff)
  have early: "isna (?xs ! i)" if "i < L" "i < length ?xs" for i
  proof -
    from that have "?xs ! i = take L ?xs ! i" "i < length (take L ?xs)" by simp_all
    with assms(2) show ?thesis by (metis list_all_length)
  qed
  have late: "positive_price (?xs ! i)" if "L \<le> i" "i < length ?xs" for i
  proof -
    from that have "?xs ! i = drop L ?xs ! (i - L)" "i - L < length (drop L ?xs)" by simp_all
    with assms(3) show ?thesis by (metis list_all_length)
  qed
  have cell: "pct_change_col pad 30 ?xs ! t =
           (if t < L + 30 then NaN
            else Fin (the (cell_value (?xs ! t)) / the (cell_value (?xs ! (t - 30))) - 1))"
  proof (cases "t < L + 30")
    case True
    show ?thesis
    proof (cases "t < 30")
      case True
      with nth \<open>t < L + 30\<close> show ?thesis by simp
    next
      case False
      with True have "t - 30 < L" "t - 30 < length ?xs" using assms(4) by simp_all
      then have "?xs ! (t - 30) = NaN" using early by (simp add: isna_def)
      with nth True False show ?thesis by simp
    qed
  next
    case False
    then have "L \<le> t" "L \<le> t - 30" "t - 30 < length ?xs" "\<not> t < 30" using assms(4) by simp_all
    then have "positive_price (?xs ! t)" "positive_price (?xs ! (t - 30))"
      using late assms(4) by simp_all
    then have "pct (?xs ! t) (?xs ! (t - 30)) =
        Fin (the (cell_value (?xs ! t)) / the (cell_value (?xs ! (t - 30))) - 1)"
      by (rule pct_positive)
    with nth False \<open>\<not> t < 30\<close> show ?thesis by simp
  qed
  have "(fst c, pct_change_col pad 30 ?xs) \<in> set (cols (pct_change pad 30 prices))"
    using assms(1) by (auto simp: pct_change_def map_cols_def)
  with cell show ?thesis by simp
qed

theorem momentum_30_after_30_rows_witness:
  "(''AAA'', rising_31) \<in> set (cols prices_31_days) \<and>
   list_all isna (take 0 (snd (''AAA'', rising_31))) \<and>
   list_all positive_price (drop 0 (snd (''AAA'', rising_31))) \<and>
   30 < length (snd (''AAA'', rising_31)) \<and>
   (''AAA'', pct_change_col False 30 rising_31) \<in> set (cols (pct_change False 30 prices_31_days)) \<and>
   pct_change_col False 30 rising_31 ! 30 = Fin (3 / 10)"
  using momentum_30_after_30_rows [of "(''AAA'', rising_31)" prices_31_days 0 30 False]
  by (simp add: rising_31_facts prices_31_days_def cell_value_def)

text \<open>
  With 31 observed prices, the 30th row (position 29) is undefined although it is past
  the first 29 rows of the history.
\<close>

theorem momentum_30_first_29_rows_counterexample:
  "list_all positive_price (take 30 rising_31) \<and>
   snd (cols (pct_change False 30 prices_31_days) ! 0) ! 29 = NaN \<and>
   snd (cols (pct_change True 30 prices_31_days) ! 0) ! 29 = NaN"
  by (simp add: mom30_31_days nth_append) code_simp

section \<open>The daily macro table\<close>

lemma asof_cell_upto:
  assumes "lo \<le> d" and "d \<le> hi"
  shows "asof_cell [lo..hi] (map h [lo..hi]) d = h d"
proof -
  have z: "zip [lo..hi] (map h [lo..hi]) = map (\<lambda>x. (x, h x)) [lo..hi]"
    by (simp add: zip_map2 zip_same_conv_map)
  have "filter (\<lambda>p. fst p \<le> d) (zip [lo..hi] (map h [lo..hi])) = map (\<lambda>x. (x, h x)) [lo..d]"
    unfolding z using filter_le_upto [OF assms] by (simp add: filter_map comp_def)
  moreover have "[lo..d] \<noteq> []" using assms by simp
  moreover have "last [lo..d] = d" using assms(1) by (subst upto_rec2) simp_all
  ultimately show ?thesis
    by (simp add: asof_cell_def case_last_nonempty last_map)
qed

lemma calendar_cases:
  obtains "calendar idx = []" | lo hi where "lo \<le> hi" "calendar idx = [lo..hi]"
proof (cases "calendar idx = []")
  case True then show ?thesis using that by blast
next
  case False
  then have "calendar idx = [hd idx..last idx]" "hd idx \<le> last idx"
    by (auto simp: calendar_def split: if_splits)
  then show ?thesis using that by blast
qed

lemma calendar_upto: "lo \<le> hi \<Longrightarrow> calendar [lo..hi] = [lo..hi]"
proof -
  assume a: "lo \<le> hi"
  then have "[lo..hi] \<noteq> []" by simp
  moreover have "hd [lo..hi] = lo" using a by (subst upto_rec1) simp_all
  moreover have "last [lo..hi] = hi" using a by (subst upto_rec2) simp_all
  ultimately show ?thesis by (simp add: calendar_def)
qed

lemma calendar_idem: "calendar (calendar idx) = calendar idx"
proof (rule calendar_cases [of idx])
  assume "calendar idx = []" then show ?thesis by (simp add: calendar_def)
next
  fix lo hi :: int assume "lo \<le> hi" and c: "calendar idx = [lo..hi]"
  then show ?thesis by (simp add: calendar_upto)
qed

lemma asof_cell_calendar:
  "map (asof_cell (calendar idx) (map h (calendar idx))) (calendar idx) = map h (calendar idx)"
proof (rule calendar_cases [of idx])
  assume "calendar idx = []" then show ?thesis by simp
next
  fix lo hi assume "lo \<le> hi" and c: "calendar idx = [lo..hi]"
  show ?thesis unfolding c by (rule map_cong) (simp_all add: asof_cell_upto)
qed

lemma resample_D_ffill_idem: "resample_D_ffill (resample_D_ffill f) = resample_D_ffill f"
  by (simp add: resample_D_ffill_def Let_def calendar_idem asof_cell_calendar comp_def)

text \<open>
  C5. Forward-fill is idempotent on the daily macro table: resampling the table that
  \<^verbatim>\<open>get_macro\<close> builds to days and forward-filling it once more gives the same
  table, and \<^verbatim>\<open>DataFrame.ffill\<close> applied twice to it gives what it gives once.
\<close>

theorem forward_fill_idempotent:
  "resample_D_ffill (align_daily frames) = align_daily frames \<and>
   ffill (ffill (align_daily frames)) = ffill (align_daily frames)"
  by (simp add: align_daily_def Let_def resample_D_ffill_idem ffill_idem)

lemma align_fed_funds:
  "align_daily [to_frame (rename ''fed_funds'' fed_funds_obs)] =
     \<lparr>index = [1, 2, 3, 4, 5], index_name = Some ''date'',
      cols = [(''fed_funds'', [Fin 5, Fin 5, Fin 5, Fin 5, Fin (21 / 4)])]\<rparr>"
  by code_simp

text \<open>
  C8. One indicator observed on day 1 (5.0) and on day 5 (5.25) is resampled to the
  calendar from its first to its last date, which is days 1 to 5, and forward-filled:
  the daily series is 5.0, 5.0, 5.0, 5.0, 5.25.
\<close>

theorem align_daily_single_indicator:
  "align_daily [to_frame (rename ''fed_funds'' fed_funds_obs)] =
     \<lparr>index = [1, 2, 3, 4, 5], index_name = Some ''date'',
      cols = [(''fed_funds'', [Fin 5, Fin 5, Fin 5, Fin 5, Fin (21 / 4)])]\<rparr>"
  by (rule align_fed_funds)

text \<open>
  The table has five rows: it is not the six-day series 5.0, 5.0, 5.0, 5.0, 5.25, 5.25
  over days 1 to 6.
\<close>

theorem align_daily_single_indicator_counterexample:
  "align_daily [to_frame (rename ''fed_funds'' fed_funds_obs)] \<noteq>
     \<lparr>index = [1, 2, 3, 4, 5, 6], index_name = Some ''date'',
      cols = [(''fed_funds'', [Fin 5, Fin 5, Fin 5, Fin 5, Fin (21 / 4), Fin (21 / 4)])]\<rparr> \<and>
   nrows (align_daily [to_frame (rename ''fed_funds'' fed_funds_obs)]) = 5"
  by (simp add: align_fed_funds nrows_def)

text \<open>
  C4. With the federal funds rate and the price index observed on day 1 only and the
  treasury yield on days 1 and 2, the daily table holds NaN for the first two on day 2,
  where the last known observation not after day 2 is 5.0 (and 300). Day 2 takes the
  row that the union table has for day 2, and that row has no value for them.
\<close>

theorem get_macro_two_dates:
  "get_macro fred_two_dates ''key'' =
     Inr \<lparr>index = [1, 2], index_name = Some ''date'',
          cols = [(''fed_funds'', [Fin 5, NaN]), (''cpi'', [Fin 300, NaN]),
                  (''treasury_10y'', [Fin 4, Fin (41 / 10)])]\<rparr>"
  by code_simp

text \<open>
  The same happens to the indicator observed on days 1 and 5 when another indicator
  stretches the calendar to day 6: its value on day 6 is NaN, not 5.25.
\<close>

lemma align_daily_later_indicator:
  "align_daily [to_frame (rename ''fed_funds'' fed_funds_obs),
                to_frame (rename ''treasury_10y'' treasury_obs)] =
     \<lparr>index = [1, 2, 3, 4, 5, 6], index_name = Some ''date'',
      cols = [(''fed_funds'', [Fin 5, Fin 5, Fin 5, Fin 5, Fin (21 / 4), NaN]),
              (''treasury_10y'', [NaN, NaN, NaN, NaN, NaN, Fin 4])]\<rparr>"
  by code_simp

section \<open>The daily macro table does not look ahead\<close>

lemma lookup_cell_upto:
  assumes "length xs = length idx" and "e \<le> d"
  shows "lookup_cell (filter (\<lambda>x. x \<le> d) idx) (sel (map (\<lambda>x. x \<le> d) idx) xs) e
         = lookup_cell idx xs e"
proof -
  have "zip (filter (\<lambda>x. x \<le> d) idx) (sel (map (\<lambda>x. x \<le> d) idx) xs)
        = filter (\<lambda>p. fst p \<le> d) (zip idx xs)"
    using zip_sel [of idx xs "\<lambda>x. x \<le> d"] assms(1) by (simp add: sel_map_self)
  then show ?thesis
    using map_of_filter_fst [of "\<lambda>x. x \<le> d" e "zip idx xs"] assms(2)
    by (simp add: lookup_cell_def)
qed

lemma index_upto_date: "index (upto_date d f) = filter (\<lambda>x. x \<le> d) (index f)"
  by (simp add: upto_date_def select_rows_def sel_map_self)

lemma cols_upto_date:
  "cols (upto_date d f) = map (\<lambda>c. (fst c, sel (map (\<lambda>x. x \<le> d) (index f)) (snd c))) (cols f)"
  by (simp add: upto_date_def select_rows_def)

lemma filter_union_index:
  "filter (\<lambda>x. x \<le> d) (union_index frames) = union_index (map (upto_date d) frames)"
  by (simp add: union_index_def filter_sort remdups_filter [symmetric] filter_concat comp_def
      index_upto_date)

lemma asof_cell_map:
  "asof_cell u (map h u) d =
     (case filter (\<lambda>x. x \<le> d) u of [] \<Rightarrow> NaN | y # ys \<Rightarrow> h (last (y # ys)))"
proof -
  have "filter (\<lambda>p. fst p \<le> d) (zip u (map h u)) = map (\<lambda>x. (x, h x)) (filter (\<lambda>x. x \<le> d) u)"
    by (simp add: zip_map2 zip_same_conv_map filter_map comp_def)
  then show ?thesis
    by (simp add: asof_cell_def last_map split: list.splits)
qed

lemma lookup_cell_map:
  assumes "d \<in> set xs"
  shows "lookup_cell xs (map h xs) d = h d"
proof -
  have "zip xs (map h xs) = map (\<lambda>x. (x, h x)) xs"
    by (simp add: zip_map2 zip_same_conv_map)
  then show ?thesis using assms by (simp add: lookup_cell_def map_of_map_restrict)
qed

lemma last_filter_le:
  assumes "filter (\<lambda>x. x \<le> d) u = y # ys"
  shows "last (y # ys) \<le> (d::int)"
proof -
  have "last (y # ys) \<in> set (filter (\<lambda>x. x \<le> d) u)"
    unfolding assms by (rule last_in_set) simp
  then show ?thesis by simp
qed

text \<open>
  The row of the daily table for a day \<open>d\<close> of its calendar is the row that the union
  of the observations dated up to \<open>d\<close> has for its latest date: it is a function of
  those observations alone.
\<close>

lemma align_daily_row:
  assumes wf: "list_all wf_frame frames" and d: "d \<in> set (index (align_daily frames))"
  shows "row_at (align_daily frames) d = latest_row (map (upto_date d) frames)"
proof -
  define u where "u = union_index frames"
  define days where "days = calendar u"
  have idx: "index (align_daily frames) = days"
    by (simp add: align_daily_def Let_def resample_D_ffill_def concat_axis1_def u_def days_def)
  have cs: "cols (align_daily frames) =
      concat (map (\<lambda>f. map (\<lambda>c. (fst c, map (asof_cell u (map (lookup_cell (index f) (snd c)) u)) days))
                          (cols f)) frames)"
    by (simp add: align_daily_def Let_def resample_D_ffill_def concat_axis1_def u_def days_def
        reindex_cols_def map_concat comp_def)
  from d idx have dd: "d \<in> set days" by simp
  have cell: "lookup_cell days (map (asof_cell u (map (lookup_cell (index f) (snd c)) u)) days) d
      = (case union_index (map (upto_date d) frames) of
           [] \<Rightarrow> NaN
         | y # ys \<Rightarrow> lookup_cell (index (upto_date d f))
                      (sel (map (\<lambda>x. x \<le> d) (index f)) (snd c)) (last (y # ys)))"
    if f: "f \<in> set frames" and c: "c \<in> set (cols f)" for f c
  proof -
    from wf f c have len: "length (snd c) = length (index f)"
      by (simp add: list_all_iff wf_frame_def)
    have fu: "filter (\<lambda>x. x \<le> d) u = union_index (map (upto_date d) frames)"
      unfolding u_def by (rule filter_union_index)
    show ?thesis
    proof (cases "union_index (map (upto_date d) frames)")
      case Nil
      with fu show ?thesis by (simp add: lookup_cell_map [OF dd] asof_cell_map)
    next
      case (Cons y ys)
      with fu have "last (y # ys) \<le> d" using last_filter_le [of d u y ys] by simp
      then have "lookup_cell (index (upto_date d f)) (sel (map (\<lambda>x. x \<le> d) (index f)) (snd c)) (last (y # ys))
          = lookup_cell (index f) (snd c) (last (y # ys))"
        unfolding index_upto_date using len by (intro lookup_cell_upto)
      with Cons fu show ?thesis by (simp add: lookup_cell_map [OF dd] asof_cell_map)
    qed
  qed
  have "row_at (align_daily frames) d =
      concat (map (\<lambda>f. map (\<lambda>c. (fst c,
          lookup_cell days (map (asof_cell u (map (lookup_cell (index f) (snd c)) u)) days) d))
          (cols f)) frames)"
    by (simp add: row_at_def idx cs map_concat comp_def)
  also have "\<dots> = concat (map (\<lambda>f. map (\<lambda>c. (fst c,
          (case union_index (map (upto_date d) frames) of
             [] \<Rightarrow> NaN
           | y # ys \<Rightarrow> lookup_cell (index (upto_date d f))
                      (sel (map (\<lambda>x. x \<le> d) (index f)) (snd c)) (last (y # ys)))))
          (cols f)) frames)"
    by (intro arg_cong [where f = concat] map_cong refl) (simp add: cell)
  also have "\<dots> = latest_row (map (upto_date d) frames)"
    by (simp add: latest_row_def cols_upto_date comp_def cong: list.case_cong)
  finally show ?thesis .
qed

text \<open>
  So two inputs that agree on every observation dated up to \<open>d\<close> give the same row at
  \<open>d\<close>, whatever they hold for later dates.
\<close>

lemma align_daily_no_look_ahead:
  assumes "list_all wf_frame fs" and "list_all wf_frame gs"
      and "map (upto_date d) fs = map (upto_date d) gs"
      and "d \<in> set (index (align_daily fs))" and "d \<in> set (index (align_daily gs))"
  shows "row_at (align_daily fs) d = row_at (align_daily gs) d"
  using assms by (simp add: align_daily_row)

section \<open>The assembled dataset keeps the returns\<close>

lemma matches_distinct:
  assumes "distinct idx"
  shows "matches idx d = [] \<or> (\<exists>p. matches idx d = [p])"
proof (rule distinct_all_equal_short)
  show "distinct (matches idx d)" by (simp add: matches_def)
next
  fix x y assume "x \<in> set (matches idx d)" "y \<in> set (matches idx d)"
  then have "x < length idx" "y < length idx" "idx ! x = idx ! y" by (simp_all add: matches_def)
  with assms show "x = y" by (simp add: nth_eq_iff_index_eq)
qed

lemma join_pairs_distinct:
  assumes "distinct ridx"
  shows "join_pairs lidx ridx = map (\<lambda>i. (i, pos_of ridx (lidx ! i))) [0..<length lidx]"
proof -
  have eq: "(case matches ridx d of [] \<Rightarrow> [(i, None)] | p # ps \<Rightarrow> map (\<lambda>q. (i, Some q)) (p # ps))
        = [(i, pos_of ridx d)]" for i d
    using matches_distinct [OF assms, of d] by (auto simp: pos_of_def)
  show ?thesis unfolding join_pairs_def eq by (rule concat_map_singleton)
qed

lemma take_right_pos_of:
  assumes "distinct idx" and "length xs = length idx"
  shows "take_right xs (pos_of idx d) = lookup_cell idx xs d"
proof (cases "matches idx d")
  case Nil
  then have "d \<notin> set idx"
    by (auto simp: matches_def filter_empty_conv in_set_conv_nth)
  moreover have "map fst (zip idx xs) = idx"
    using assms(2) by simp
  ultimately have "map_of (zip idx xs) d = None"
    by (metis map_of_eq_None_iff set_map)
  with Nil show ?thesis by (simp add: take_right_def pos_of_def lookup_cell_def)
next
  case (Cons p ps)
  then have "p \<in> set (matches idx d)" by simp
  then have p: "p < length idx" "idx ! p = d" by (simp_all add: matches_def)
  have "map_of (zip idx xs) (idx ! p) = Some (xs ! p)"
  proof (rule map_of_zip_nth)
    show "length idx = length xs" using assms(2) by simp
    show "distinct idx" by (rule assms(1))
    show "p < length xs" using p(1) assms(2) by simp
  qed
  with Cons p(2) show ?thesis by (simp add: take_right_def pos_of_def lookup_cell_def)
qed

lemma join_left_distinct:
  assumes "wf_frame l" and "wf_frame r" and "distinct (index r)"
      and "\<not> list_ex (\<lambda>n. n \<in> set (columns r)) (columns l)"
  shows "join_left l r =
           Inr \<lparr>index = index l, index_name = index_name l,
                cols = cols l @
                  map (\<lambda>c. (fst c, map (lookup_cell (index r) (snd c)) (index l))) (cols r)\<rparr>"
proof -
  let ?n = "length (index l)"
  have idx: "map (\<lambda>i. index l ! i) [0..<?n] = index l" by (rule map_nth)
  have left: "map (\<lambda>c. (fst c, map (\<lambda>i. snd c ! i) [0..<?n])) (cols l) = cols l"
  proof (rule map_idI)
    fix c assume "c \<in> set (cols l)"
    with assms(1) have "length (snd c) = ?n" by (simp add: wf_frame_def list_all_iff)
    then have "map (\<lambda>i. snd c ! i) [0..<?n] = snd c" using map_nth [of "snd c"] by simp
    then show "(fst c, map (\<lambda>i. snd c ! i) [0..<?n]) = c" by simp
  qed
  have right: "map (\<lambda>c. (fst c, map (\<lambda>i. take_right (snd c) (pos_of (index r) (index l ! i))) [0..<?n])) (cols r)
             = map (\<lambda>c. (fst c, map (lookup_cell (index r) (snd c)) (index l))) (cols r)"
  proof (rule map_cong [OF refl])
    fix c assume "c \<in> set (cols r)"
    with assms(2) have len: "length (snd c) = length (index r)" by (simp add: wf_frame_def list_all_iff)
    have "map (\<lambda>i. take_right (snd c) (pos_of (index r) (index l ! i))) [0..<?n]
        = map (\<lambda>i. lookup_cell (index r) (snd c) (index l ! i)) [0..<?n]"
      by (simp add: take_right_pos_of [OF assms(3) len])
    also have "\<dots> = map (lookup_cell (index r) (snd c)) (map (\<lambda>i. index l ! i) [0..<?n])"
      by (simp add: comp_def)
    finally show "(fst c, map (\<lambda>i. take_right (snd c) (pos_of (index r) (index l ! i))) [0..<?n])
        = (fst c, map (lookup_cell (index r) (snd c)) (index l))"
      by (simp add: idx)
  qed
  show ?thesis
    using assms(4)
    by (simp add: join_left_def Let_def join_pairs_distinct [OF assms(3)] comp_def idx left right)
qed

lemma ffill_col_returns:
  assumes "c \<in> set (cols (compute_returns pad prices))"
  shows "ffill_col (snd c) = snd c"
proof -
  have "list_all (\<lambda>x. \<not> isna x) (snd c)"
    using compute_returns_cell_notna [OF assms] by (simp add: list_all_iff)
  then show ?thesis unfolding ffill_col_def by (rule ffill_from_notna)
qed

text \<open>
  C2. In the dataset assembled from the return matrix and a daily macro table (one row
  per date, no column name in common), every date of the return matrix is kept, every
  return column is the column of the return matrix, cell by cell, and every macro
  column is the macro value at the return dates (NaN where the macro table has no row)
  forward-filled along the return dates, so from its own past only. The forward fill
  runs over the whole joined table; it leaves the return columns as they are because
  the return matrix holds no NaN.
\<close>

theorem assemble_keeps_returns:
  assumes "wf_frame prices" and "wf_frame macro" and "distinct (index macro)"
      and "fred_key \<noteq> []"
      and "\<not> list_ex (\<lambda>n. n \<in> set (columns macro)) (columns (compute_returns pad prices))"
  shows "assemble fred_key (compute_returns pad prices) (Some macro) =
           Inr \<lparr>index = index (compute_returns pad prices), index_name = Some ''date'',
                cols = cols (compute_returns pad prices) @
                  map (\<lambda>c. (fst c,
                        ffill_col (map (lookup_cell (index macro) (snd c))
                                       (index (compute_returns pad prices)))))
                      (cols macro)\<rparr>"
proof -
  let ?rets = "compute_returns pad prices"
  have wf: "wf_frame ?rets" using assms(1) by (rule wf_compute_returns)
  have j: "join_left ?rets macro =
      Inr \<lparr>index = index ?rets, index_name = index_name ?rets,
           cols = cols ?rets @
             map (\<lambda>c. (fst c, map (lookup_cell (index macro) (snd c)) (index ?rets))) (cols macro)\<rparr>"
    using wf assms(2,3,5) by (rule join_left_distinct)
  have keep: "map (\<lambda>c. (fst c, ffill_col (snd c))) (cols ?rets) = cols ?rets"
    by (rule map_idI) (simp add: ffill_col_returns)
  show ?thesis
    using assms(4) by (simp add: assemble_def Let_def j ffill_def map_cols_def keep comp_def)
qed

theorem assemble_keeps_returns_witness:
  "wf_frame prices_4_days \<and> wf_frame macro_3_days \<and> distinct (index macro_3_days) \<and>
   ''key'' \<noteq> [] \<and>
   \<not> list_ex (\<lambda>n. n \<in> set (columns macro_3_days)) (columns (compute_returns False prices_4_days)) \<and>
   assemble ''key'' (compute_returns False prices_4_days) (Some macro_3_days) =
     Inr \<lparr>index = [2, 3, 4], index_name = Some ''date'',
          cols = [(''AAPL'', [Fin (1 / 50), Fin (- 1 / 102), Fin (4 / 101)]),
                  (''fed_funds'', [Fin 5, Fin (21 / 4), Fin (21 / 4)])]\<rparr>"
proof -
  have h1: "wf_frame prices_4_days" by (simp add: wf_frame_def prices_4_days_def)
  have h2: "wf_frame macro_3_days" by (simp add: wf_frame_def macro_3_days_def)
  have h3: "distinct (index macro_3_days)" by (simp add: macro_3_days_def)
  have h4: "''key'' \<noteq> []" by simp
  have h5: "\<not> list_ex (\<lambda>n. n \<in> set (columns macro_3_days))
              (columns (compute_returns False prices_4_days))"
    by (simp add: compute_returns_4_days columns_def macro_3_days_def)
  have "assemble ''key'' (compute_returns False prices_4_days) (Some macro_3_days) =
     Inr \<lparr>index = [2, 3, 4], index_name = Some ''date'',
          cols = [(''AAPL'', [Fin (1 / 50), Fin (- 1 / 102), Fin (4 / 101)]),
                  (''fed_funds'', [Fin 5, Fin (21 / 4), Fin (21 / 4)])]\<rparr>"
    using assemble_keeps_returns [OF h1 h2 h3 h4 h5]
    by (simp add: compute_returns_4_days macro_3_days_def lookup_cell_def ffill_col_def isna_def)
  with h1 h2 h3 h4 h5 show ?thesis by blast
qed

section \<open>The run\<close>

lemma download_4_days:
  "download_prices yf_4_days get_universe ''2018-01-01'' = Inr prices_4_days"
  by (simp add: download_prices_def yf_4_days_def prices_4_days_def)

lemma main_macro_failure:
  assumes "getenv (environ e) ''FRED_API_KEY'' [] = fred_key" and "fred_key \<noteq> []"
      and "download_prices (yf_download e) get_universe ''2018-01-01'' = Inr prices"
      and "call_fetch_macro g fred_key = Inl err"
  shows "main pad g e w0 =
           (to_csv (compute_returns pad prices) ''data/processed/daily_returns.csv''
              (to_csv prices ''data/raw/prices.csv'' (ensure_dirs w0)),
            Inl err)"
  using assms by (simp add: main_def Let_def macro_stage_def DATA_RAW_def DATA_PROC_def)

lemma main_no_key:
  assumes "getenv (environ e) ''FRED_API_KEY'' [] = []"
      and "download_prices (yf_download e) get_universe ''2018-01-01'' = Inr prices"
  shows "main pad g e w0 =
           (print_report
              (to_csv (basic_features pad prices (compute_returns pad prices))
                 ''data/processed/features_basic.csv''
                 (to_csv (compute_returns pad prices) ''data/processed/daily_returns.csv''
                    (to_csv prices ''data/raw/prices.csv'' (ensure_dirs w0)))),
            Inr ())"
  using assms
  by (simp add: main_def Let_def macro_stage_def assemble_def DATA_RAW_def DATA_PROC_def)

text \<open>
  C7. When a credential is present and the macro stage fails, the run ends with that
  failure. The price table and the return table are written before the stage starts,
  so both are produced; the macro table and the feature table are not written, their
  files stay as they were. The macro stage and the features are coupled, the macro
  stage and the returns are not.
\<close>

theorem macro_failure_blocks_features:
  assumes "getenv (environ e) ''FRED_API_KEY'' [] = fred_key" and "fred_key \<noteq> []"
      and "download_prices (yf_download e) get_universe ''2018-01-01'' = Inr prices"
      and "call_fetch_macro g fred_key = Inl err"
  shows "snd (main pad g e w0) = Inl err \<and>
         files (fst (main pad g e w0)) ''data/raw/prices.csv'' = Some prices \<and>
         files (fst (main pad g e w0)) ''data/processed/daily_returns.csv'' =
           Some (compute_returns pad prices) \<and>
         files (fst (main pad g e w0)) ''data/processed/features_basic.csv'' =
           files w0 ''data/processed/features_basic.csv'' \<and>
         files (fst (main pad g e w0)) ''data/raw/macro.csv'' = files w0 ''data/raw/macro.csv''"
  unfolding main_macro_failure [OF assms]
  by (simp add: to_csv_def ensure_dirs_def)

theorem macro_failure_blocks_features_witness:
  "getenv (environ env_with_key) ''FRED_API_KEY'' [] = ''key'' \<and> ''key'' \<noteq> [] \<and>
   download_prices (yf_download env_with_key) get_universe ''2018-01-01'' = Inr prices_4_days \<and>
   call_fetch_macro module_fetch_macro ''key'' = Inl (NameError ''fetch_macro'') \<and>
   snd (main False module_fetch_macro env_with_key fresh_world) = Inl (NameError ''fetch_macro'') \<and>
   files (fst (main False module_fetch_macro env_with_key fresh_world)) ''data/processed/daily_returns.csv'' =
     Some (compute_returns False prices_4_days) \<and>
   files (fst (main False module_fetch_macro env_with_key fresh_world)) ''data/processed/features_basic.csv'' =
     None"
proof -
  have h1: "getenv (environ env_with_key) ''FRED_API_KEY'' [] = ''key''"
    by (simp add: getenv_def env_with_key_def)
  have h2: "''key'' \<noteq> []" by simp
  have h3: "download_prices (yf_download env_with_key) get_universe ''2018-01-01'' = Inr prices_4_days"
    by (simp add: env_with_key_def download_4_days)
  have h4: "call_fetch_macro module_fetch_macro ''key'' = Inl (NameError ''fetch_macro'')"
    by (simp add: call_fetch_macro_def module_fetch_macro_def)
  from macro_failure_blocks_features [OF h1 h2 h3 h4, of False fresh_world]
  have "snd (main False module_fetch_macro env_with_key fresh_world) = Inl (NameError ''fetch_macro'')"
    and "files (fst (main False module_fetch_macro env_with_key fresh_world)) ''data/processed/daily_returns.csv'' =
     Some (compute_returns False prices_4_days)"
    and "files (fst (main False module_fetch_macro env_with_key fresh_world)) ''data/processed/features_basic.csv'' =
     None"
    by (simp_all add: fresh_world_def)
  with h1 h2 h3 h4 show ?thesis by blast
qed

text \<open>
  With the module as it is (it calls \<^verbatim>\<open>fetch_macro\<close>, a name it does not bind) and
  a credential in the environment, the run ends in \<^verbatim>\<open>NameError\<close> before the features
  are computed: no feature table is written and nothing is printed.
\<close>

theorem macro_failure_blocks_features_counterexample:
  "snd (main False module_fetch_macro env_with_key fresh_world) = Inl (NameError ''fetch_macro'') \<and>
   files (fst (main False module_fetch_macro env_with_key fresh_world)) ''data/processed/features_basic.csv'' = None \<and>
   files (fst (main True module_fetch_macro env_with_key fresh_world)) ''data/processed/features_basic.csv'' = None \<and>
   stdout (fst (main False module_fetch_macro env_with_key fresh_world)) = []"
proof -
  have h1: "getenv (environ env_with_key) ''FRED_API_KEY'' [] = ''key''"
    by (simp add: getenv_def env_with_key_def)
  have h3: "download_prices (yf_download env_with_key) get_universe ''2018-01-01'' = Inr prices_4_days"
    by (simp add: env_with_key_def download_4_days)
  have h4: "call_fetch_macro module_fetch_macro ''key'' = Inl (NameError ''fetch_macro'')"
    by (simp add: call_fetch_macro_def module_fetch_macro_def)
  have "main pad module_fetch_macro env_with_key fresh_world =
           (to_csv (compute_returns pad prices_4_days) ''data/processed/daily_returns.csv''
              (to_csv prices_4_days ''data/raw/prices.csv'' (ensure_dirs fresh_world)),
            Inl (NameError ''fetch_macro''))" for pad
    using h1 _ h3 h4 by (rule main_macro_failure) simp
  then show ?thesis by (simp add: to_csv_def ensure_dirs_def fresh_world_def)
qed

text \<open>
  C6. When no credential is supplied (the variable is unset or empty), the macro stage
  is skipped: it fetches nothing and writes no macro table. That is a normal path: the
  assembled dataset is the return matrix itself, the run writes prices, returns and
  features and returns without an error.
\<close>

theorem no_credential_skips_macro:
  assumes "getenv (environ e) ''FRED_API_KEY'' [] = []"
      and "download_prices (yf_download e) get_universe ''2018-01-01'' = Inr prices"
  shows "macro_stage g [] w = Inr (None, w) \<and>
         assemble [] (compute_returns pad prices) None = Inr (compute_returns pad prices) \<and>
         snd (main pad g e w0) = Inr () \<and>
         files (fst (main pad g e w0)) ''data/raw/macro.csv'' = files w0 ''data/raw/macro.csv'' \<and>
         files (fst (main pad g e w0)) ''data/raw/prices.csv'' = Some prices \<and>
         files (fst (main pad g e w0)) ''data/processed/daily_returns.csv'' =
           Some (compute_returns pad prices) \<and>
         files (fst (main pad g e w0)) ''data/processed/features_basic.csv'' =
           Some (basic_features pad prices (compute_returns pad prices))"
  unfolding main_no_key [OF assms]
  by (simp add: macro_stage_def assemble_def to_csv_def ensure_dirs_def print_report_def)

theorem no_credential_skips_macro_witness:
  "getenv (environ env_no_key) ''FRED_API_KEY'' [] = [] \<and>
   download_prices (yf_download env_no_key) get_universe ''2018-01-01'' = Inr prices_4_days \<and>
   macro_stage module_fetch_macro [] fresh_world = Inr (None, fresh_world) \<and>
   assemble [] (compute_returns False prices_4_days) None =
     Inr \<lparr>index = [2, 3, 4], index_name = Some ''date'',
          cols = [(''AAPL'', [Fin (1 / 50), Fin (- 1 / 102), Fin (4 / 101)])]\<rparr> \<and>
   snd (main False module_fetch_macro env_no_key fresh_world) = Inr () \<and>
   files (fst (main False module_fetch_macro env_no_key fresh_world)) ''data/raw/macro.csv'' = None"
proof -
  have h1: "getenv (environ env_no_key) ''FRED_API_KEY'' [] = []"
    by (simp add: getenv_def env_no_key_def)
  have h2: "download_prices (yf_download env_no_key) get_universe ''2018-01-01'' = Inr prices_4_days"
    by (simp add: env_no_key_def download_4_days)
  from no_credential_skips_macro [OF h1 h2, of module_fetch_macro fresh_world False fresh_world]
  have "macro_stage module_fetch_macro [] fresh_world = Inr (None, fresh_world)"
    and "assemble [] (compute_returns False prices_4_days) None =
     Inr \<lparr>index = [2, 3, 4], index_name = Some ''date'',
          cols = [(''AAPL'', [Fin (1 / 50), Fin (- 1 / 102), Fin (4 / 101)])]\<rparr>"
    and "snd (main False module_fetch_macro env_no_key fresh_world) = Inr ()"
    and "files (fst (main False module_fetch_macro env_no_key fresh_world)) ''data/raw/macro.csv'' = None"
    by (simp_all add: compute_returns_4_days fresh_world_def)
  with h1 h2 show ?thesis by blast
qed

text \<open>
  Everything such a run leaves: three directories, three tables and the fixed closing
  message; \<^verbatim>\<open>main\<close> returns nothing. There is no flag that says whether the macro
  data was included.
\<close>

theorem no_credential_no_flag_counterexample:
  "main False module_fetch_macro env_no_key fresh_world =
     (\<lparr>dirs = {''data'', ''data/raw'', ''data/processed''},
       files = [''data/raw/prices.csv'' \<mapsto> prices_4_days,
                ''data/processed/daily_returns.csv'' \<mapsto> compute_returns False prices_4_days,
                ''data/processed/features_basic.csv'' \<mapsto>
                   basic_features False prices_4_days (compute_returns False prices_4_days)],
       stdout = report\<rparr>,
      Inr ())"
proof -
  have h1: "getenv (environ env_no_key) ''FRED_API_KEY'' [] = []"
    by (simp add: getenv_def env_no_key_def)
  have h2: "download_prices (yf_download env_no_key) get_universe ''2018-01-01'' = Inr prices_4_days"
    by (simp add: env_no_key_def download_4_days)
  show ?thesis
    unfolding main_no_key [OF h1 h2]
    by (simp add: to_csv_def ensure_dirs_def print_report_def fresh_world_def DATA_RAW_def DATA_PROC_def
        insert_commute)
qed

end
